theory Spec2Isabelle
  imports Complex_Main "HOL-Library.Log_Nat"
begin

section \<open>JavaScript values used by script.js\<close>

text \<open>
  The schedule editor (class \<open>ScheduleApp\<close> of \<open>script.js\<close>) computes with
  JavaScript numbers and strings. The model uses

  \<^item> \<open>jsint\<close> for the numbers that count hours and minutes: an integer, or \<open>None\<close> for
    \<open>NaN\<close> (what \<open>Number\<close> and \<open>parseInt\<close> return on text that is not a number, and what
    arithmetic on \<open>NaN\<close> or \<open>undefined\<close> returns);
  \<^item> \<open>rat\<close> for pixel coordinates and other numbers with a fraction: the value of a
    double; every division and every product of such numbers is rounded to the nearest
    double by \<open>fl\<close> below (infinities are not modelled, and \<open>-0\<close> is \<open>0\<close>);
  \<^item> \<open>string\<close> for strings, a character being one code unit below 256.
\<close>

type_synonym jsint = "int option"

definition js_add :: "jsint \<Rightarrow> jsint \<Rightarrow> jsint" where
  "js_add a b = (case a of None \<Rightarrow> None | Some x \<Rightarrow> (case b of None \<Rightarrow> None | Some y \<Rightarrow> Some (x + y)))"

definition js_sub :: "jsint \<Rightarrow> jsint \<Rightarrow> jsint" where
  "js_sub a b = (case a of None \<Rightarrow> None | Some x \<Rightarrow> (case b of None \<Rightarrow> None | Some y \<Rightarrow> Some (x - y)))"

definition js_mul :: "jsint \<Rightarrow> jsint \<Rightarrow> jsint" where
  "js_mul a b = (case a of None \<Rightarrow> None | Some x \<Rightarrow> (case b of None \<Rightarrow> None | Some y \<Rightarrow> Some (x * y)))"

text \<open>\<open>a >= b\<close> and \<open>a < b\<close>: every comparison with \<open>NaN\<close> is false.\<close>

definition js_ge :: "jsint \<Rightarrow> jsint \<Rightarrow> bool" where
  "js_ge a b = (case a of None \<Rightarrow> False | Some x \<Rightarrow> (case b of None \<Rightarrow> False | Some y \<Rightarrow> x \<ge> y))"

definition js_lt :: "jsint \<Rightarrow> jsint \<Rightarrow> bool" where
  "js_lt a b = (case a of None \<Rightarrow> False | Some x \<Rightarrow> (case b of None \<Rightarrow> False | Some y \<Rightarrow> x < y))"

text \<open>\<open>Math.max\<close> and \<open>Math.min\<close> return \<open>NaN\<close> as soon as one argument is \<open>NaN\<close>.\<close>

definition Math_max :: "jsint \<Rightarrow> jsint \<Rightarrow> jsint" where
  "Math_max a b = (case a of None \<Rightarrow> None | Some x \<Rightarrow> (case b of None \<Rightarrow> None | Some y \<Rightarrow> Some (max x y)))"

definition Math_min :: "jsint \<Rightarrow> jsint \<Rightarrow> jsint" where
  "Math_min a b = (case a of None \<Rightarrow> None | Some x \<Rightarrow> (case b of None \<Rightarrow> None | Some y \<Rightarrow> Some (min x y)))"

text \<open>
  \<open>Math.round\<close> returns the nearest integer, and of two equally near integers the one
  closer to plus infinity. \<open>Math.floor\<close> is the floor. Both are exact: the integer nearest
  to a double, and the floor of a double, are doubles.
\<close>

definition Math_round :: "rat \<Rightarrow> int" where
  "Math_round x = \<lfloor>x + 1 / 2\<rfloor>"

definition Math_floor :: "rat \<Rightarrow> int" where
  "Math_floor x = \<lfloor>x\<rfloor>"

subsection \<open>Doubles\<close>

text \<open>
  A JavaScript number is an IEEE 754 double: 53 significant bits, the last place of a
  number \<open>x\<close> being \<open>2\<close> to the power \<open>\<lfloor>log\<^sub>2 \<bar>x\<bar>\<rfloor> - 52\<close> and never less than \<open>2\<close> to the
  power \<open>-1074\<close> (below \<open>2\<close> to the power \<open>-1022\<close> numbers are subnormal). The result of an
  arithmetic operation is the exact result rounded to the nearest multiple of its last
  place, a tie going to the even multiple.

  \<open>ilog2 x\<close> is \<open>\<lfloor>log\<^sub>2 x\<rfloor>\<close> for a positive \<open>x\<close>, computed from the bit lengths of numerator
  and denominator. \<open>fl x\<close> is the double nearest to \<open>x\<close>. Overflow is left out: a result
  beyond the largest double, which the program turns into an infinity, is rounded by \<open>fl\<close>
  like any other number (in the clamp of \<open>handleDrop\<close> such a number and an infinity
  give the same result; the statements that depend on the value itself bound it). Sums,
  differences and products of integers are taken exactly, which they are in doubles up to
  \<open>2 ^ 53\<close>.
\<close>

definition ilog2 :: "rat \<Rightarrow> int" where
  "ilog2 x = (case quotient_of x of (p, q) \<Rightarrow>
                (let d = bitlen p - bitlen q in if 2 powi d \<le> x then d else d - 1))"

definition ulp_exp :: "rat \<Rightarrow> int" where
  "ulp_exp x = max (- 1074) (ilog2 \<bar>x\<bar> - 52)"

definition round_even :: "rat \<Rightarrow> int" where
  "round_even x =
     (let f = \<lfloor>x\<rfloor>; r = x - of_int f
      in if r < 1 / 2 then f else if 1 / 2 < r then f + 1 else if even f then f else f + 1)"

definition fl :: "rat \<Rightarrow> rat" where
  "fl x = (if x = 0 then 0 else of_int (round_even (x / 2 powi ulp_exp x)) * 2 powi ulp_exp x)"

text \<open>The least positive normal double.\<close>

definition min_normal :: rat where
  "min_normal = 2 powi (- 1022)"

text \<open>The remainder operator \<open>%\<close>: the result has the sign of the dividend.\<close>

definition js_rem :: "int \<Rightarrow> int \<Rightarrow> int" where
  "js_rem a b = sgn a * (\<bar>a\<bar> mod \<bar>b\<bar>)"

subsection \<open>Strings\<close>

definition is_digit :: "char \<Rightarrow> bool" where
  "is_digit c = (48 \<le> (of_char c :: nat) \<and> (of_char c :: nat) \<le> 57)"

definition digit_val :: "char \<Rightarrow> nat" where
  "digit_val c = of_char c - 48"

definition digit_char :: "nat \<Rightarrow> char" where
  "digit_char n = char_of (48 + n)"

text \<open>
  White space as \<open>String.prototype.trim\<close> and the number parsers see it, for code units
  below 256: tab, line feed, vertical tab, form feed, carriage return, space, no-break space.
\<close>

definition is_ws :: "char \<Rightarrow> bool" where
  "is_ws c = ((of_char c :: nat) \<in> {9, 10, 11, 12, 13, 32, 160})"

definition trim :: "string \<Rightarrow> string" where
  "trim s = rev (dropWhile is_ws (rev (dropWhile is_ws s)))"

text \<open>\<open>s.split(sep)\<close> for a separator of one character: never an empty array.\<close>

fun split :: "char \<Rightarrow> string \<Rightarrow> string list" where
  "split sep [] = [[]]"
| "split sep (c # cs) =
     (if c = sep then [] # split sep cs
      else (case split sep cs of [] \<Rightarrow> [[c]] | p # ps \<Rightarrow> (c # p) # ps))"

text \<open>\<open>s.padStart(n, c)\<close> for a pad string of one character.\<close>

definition padStart :: "nat \<Rightarrow> char \<Rightarrow> string \<Rightarrow> string" where
  "padStart n c s = replicate (n - length s) c @ s"

text \<open>\<open>String(n)\<close> of an integer: its decimal digits, after a minus sign when negative.\<close>

fun digits :: "nat \<Rightarrow> string" where
  "digits n = (if n < 10 then [digit_char n] else digits (n div 10) @ [digit_char (n mod 10)])"

declare digits.simps [simp del]

definition String_of :: "jsint \<Rightarrow> string" where
  "String_of v = (case v of None \<Rightarrow> ''NaN''
                  | Some i \<Rightarrow> if i < 0 then CHR ''-'' # digits (nat (- i)) else digits (nat i))"

text \<open>The value of a string of decimal digits.\<close>

definition dec :: "string \<Rightarrow> nat" where
  "dec s = foldl (\<lambda>a c. 10 * a + digit_val c) 0 s"

text \<open>
  \<open>Number(s)\<close> on the strings this program gives it: surrounding white space is dropped,
  the empty string is 0, an optionally signed string of decimal digits is its value (leading
  zeros allowed, taken exactly, as it is for up to 15 digits), other text is \<open>NaN\<close>.
  Literals with a fraction, an exponent or a radix
  prefix and \<open>Infinity\<close> are outside the model: no time string of the form HH:MM and no
  string produced by \<open>formatTime\<close> is one of them.
\<close>

definition Number :: "string \<Rightarrow> jsint" where
  "Number s =
     (let t = trim s in
      if t = [] then Some 0
      else if list_all is_digit t then Some (int (dec t))
      else (case t of
              [] \<Rightarrow> None
            | c # r \<Rightarrow>
                if r \<noteq> [] \<and> list_all is_digit r \<and> c = CHR ''-'' then Some (- int (dec r))
                else if r \<noteq> [] \<and> list_all is_digit r \<and> c = CHR ''+'' then Some (int (dec r))
                else None))"

text \<open>
  \<open>parseInt(s, 10)\<close>: leading white space is skipped, then an optional sign, then the
  longest run of decimal digits is read; without a digit the result is \<open>NaN\<close>.
\<close>

definition parseInt10 :: "string \<Rightarrow> jsint" where
  "parseInt10 s =
     (let t = dropWhile is_ws s;
          neg = (case t of [] \<Rightarrow> False | c # _ \<Rightarrow> c = CHR ''-'');
          r = (case t of [] \<Rightarrow> [] | c # cs \<Rightarrow> if c = CHR ''-'' \<or> c = CHR ''+'' then cs else t);
          ds = takeWhile is_digit r
      in if ds = [] then None else Some (if neg then - int (dec ds) else int (dec ds)))"

section \<open>Data model\<close>

text \<open>
  \<open>this.CONFIG\<close>: the time window, the pixel density and the snap grid (the storage key is
  a constant and is left out). \<open>pixelsPerHour\<close> is 300 and \<open>snapMinutes\<close> is 5 in the
  constructor, and no code assigns them; they are fields here so that statements can range
  over them.
\<close>

record app_config =
  startHour :: jsint
  endHour :: jsint
  pixelsPerHour :: rat
  snapMinutes :: int

record stage =
  stage_id :: string
  stage_name :: string

text \<open>An act; \<open>category\<close> is \<open>None\<close> when the object has no such property.\<close>

record act =
  act_id :: string
  stageId :: string
  act_name :: string
  startTime :: string
  endTime :: string
  color :: string
  category :: "string option"

record member =
  member_id :: string
  member_name :: string
  teams :: "string list"

section \<open>Time strings\<close>

text \<open>
  \<open>const [h, m] = t.split(':').map(Number)\<close> followed by \<open>h * 60 + m\<close>, as written in
  \<open>createActCard\<close>, \<open>handleDrop\<close> and \<open>generateSpecializedExport\<close>. A missing element of
  the destructured array is \<open>undefined\<close>, and the sum is then \<open>NaN\<close>.
\<close>

definition splitHM :: "string \<Rightarrow> jsint \<times> jsint" where
  "splitHM t = (case map Number (split CHR '':'' t) of
                  [] \<Rightarrow> (None, None)
                | [h] \<Rightarrow> (h, None)
                | h # m # _ \<Rightarrow> (h, m))"

definition totalMin :: "string \<Rightarrow> jsint" where
  "totalMin t = (case splitHM t of (h, m) \<Rightarrow> js_add (js_mul h (Some 60)) m)"

text \<open>
  \<open>formatTime(totalMin)\<close>. On \<open>NaN\<close> the floor and the remainder are \<open>NaN\<close>, the
  comparison \<open>h >= 24\<close> is false, and both parts print as \<open>NaN\<close>.
\<close>

definition formatTime :: "jsint \<Rightarrow> string" where
  "formatTime t =
     (case t of
        None \<Rightarrow> padStart 2 CHR ''0'' (String_of None) @ '':'' @ padStart 2 CHR ''0'' (String_of None)
      | Some n \<Rightarrow>
          (let h = Math_floor (fl (of_int n / 60));
               m = js_rem n 60;
               h' = (if h \<ge> 24 then js_rem h 24 else h)
           in padStart 2 CHR ''0'' (String_of (Some h')) @ '':'' @ padStart 2 CHR ''0'' (String_of (Some m))))"

text \<open>
  The hour that \<open>formatTime\<close> prints for the hour \<open>h\<close>, that is the effect of
  \<open>if (h >= 24) h = h % 24\<close>, named for the statements about \<open>formatTime\<close>.
\<close>

definition wrap_hour :: "int \<Rightarrow> int" where
  "wrap_hour h = (if h \<ge> 24 then js_rem h 24 else h)"

section \<open>Placing a card: the position arithmetic of createActCard\<close>

definition durationMin :: "act \<Rightarrow> jsint" where
  "durationMin a = js_sub (totalMin (endTime a)) (totalMin (startTime a))"

definition topPx :: "app_config \<Rightarrow> act \<Rightarrow> rat option" where
  "topPx cfg a =
     (let startTotalMin = totalMin (startTime a);
          configStartMin = js_mul (startHour cfg) (Some 60);
          offsetMin = js_sub startTotalMin configStartMin
      in map_option (\<lambda>n. fl (fl (of_int n / 60) * pixelsPerHour cfg)) offsetMin)"

definition heightPx :: "app_config \<Rightarrow> act \<Rightarrow> rat option" where
  "heightPx cfg a = map_option (\<lambda>n. fl (fl (of_int n / 60) * pixelsPerHour cfg)) (durationMin a)"

section \<open>Application state\<close>

text \<open>
  \<open>this.state\<close> with its saved copy of the window, \<open>this.dragState\<close>, the read-only
  flag, and the item stored in \<open>localStorage\<close> under the storage key (the snapshot that
  \<open>JSON.stringify(this.state)\<close> serialises, or \<open>None\<close> when nothing is stored; JSON has no
  \<open>NaN\<close> and writes \<open>null\<close> for it, so that in the stored snapshot an hour \<open>None\<close> stands
  for \<open>null\<close>). The DOM is not part of the model: rendering, alerts and modal visibility
  change no field below.
\<close>

record saved_config =
  saved_startHour :: jsint
  saved_endHour :: jsint

record app_state =
  config :: saved_config
  stages :: "stage list"
  acts :: "act list"
  members :: "member list"

record drag_state =
  actId :: "string option"
  offsetY :: rat

record app =
  CONFIG :: app_config
  state :: app_state
  dragState :: drag_state
  isReadOnly :: bool
  localStorage :: "app_state option"

definition saveState :: "app \<Rightarrow> app" where
  "saveState ap =
     (if isReadOnly ap then ap
      else
        (let st = (state ap)\<lparr>config := \<lparr>saved_startHour = startHour (CONFIG ap),
                                         saved_endHour = endHour (CONFIG ap)\<rparr>\<rparr>
         in ap\<lparr>state := st, localStorage := Some st\<rparr>))"

section \<open>Dropping a card: handleDrop\<close>

text \<open>
  The local constants of \<open>handleDrop\<close>, in the order of the source. Each division and
  each product of the pixel arithmetic is rounded; the product of the rounded quotient and
  the snap grid, and the sum with the start of the window, are integers and are taken
  exactly.
\<close>

definition minutesFromStart :: "app_config \<Rightarrow> rat \<Rightarrow> rat" where
  "minutesFromStart cfg relativeY = fl (fl (relativeY / pixelsPerHour cfg) * 60)"

definition snappedMinutes :: "app_config \<Rightarrow> rat \<Rightarrow> int" where
  "snappedMinutes cfg relativeY =
     Math_round (fl (minutesFromStart cfg relativeY / of_int (snapMinutes cfg))) * snapMinutes cfg"

definition newStartTotalMin :: "app_config \<Rightarrow> rat \<Rightarrow> jsint" where
  "newStartTotalMin cfg relativeY =
     js_add (js_mul (startHour cfg) (Some 60)) (Some (snappedMinutes cfg relativeY))"

definition globalStartMin :: "app_config \<Rightarrow> jsint" where
  "globalStartMin cfg = js_mul (startHour cfg) (Some 60)"

definition globalEndMin :: "app_config \<Rightarrow> jsint" where
  "globalEndMin cfg = js_mul (endHour cfg) (Some 60)"

definition clampedStartMin :: "app_config \<Rightarrow> rat \<Rightarrow> act \<Rightarrow> jsint" where
  "clampedStartMin cfg relativeY a =
     Math_max (globalStartMin cfg)
       (Math_min (newStartTotalMin cfg relativeY) (js_sub (globalEndMin cfg) (durationMin a)))"

definition clampedEndMin :: "app_config \<Rightarrow> rat \<Rightarrow> act \<Rightarrow> jsint" where
  "clampedEndMin cfg relativeY a = js_add (clampedStartMin cfg relativeY a) (durationMin a)"

text \<open>\<open>xs.findIndex(p)\<close>; \<open>xs.find(p)\<close> is the element at that index.\<close>

fun findIndex :: "('a \<Rightarrow> bool) \<Rightarrow> 'a list \<Rightarrow> nat option" where
  "findIndex p [] = None"
| "findIndex p (x # xs) = (if p x then Some 0 else map_option Suc (findIndex p xs))"

text \<open>
  \<open>handleDrop(e, stageId)\<close>; of the event, \<open>e.clientY\<close> and the top of the bounding
  rectangle of \<open>e.currentTarget\<close> are used. The act found is an object of the array
  \<open>this.state.acts\<close>, updated in place: the array holds the updated act at the same index.
  The two differences that give \<open>relativeY\<close> are taken exactly, as they are for the
  coordinates of an event (integers or small binary fractions).
\<close>

definition handleDrop :: "app \<Rightarrow> rat \<Rightarrow> rat \<Rightarrow> string \<Rightarrow> app" where
  "handleDrop ap clientY stageRectTop sid =
     (case actId (dragState ap) of
        None \<Rightarrow> ap
      | Some aid \<Rightarrow>
          if aid = [] then ap
          else
            (let relativeY = clientY - stageRectTop - offsetY (dragState ap) in
             (case findIndex (\<lambda>a. act_id a = aid) (acts (state ap)) of
                None \<Rightarrow> ap
              | Some i \<Rightarrow>
                  (let a = acts (state ap) ! i;
                       cs = clampedStartMin (CONFIG ap) relativeY a;
                       ce = clampedEndMin (CONFIG ap) relativeY a;
                       a' = a\<lparr>stageId := sid, startTime := formatTime cs, endTime := formatTime ce\<rparr>;
                       ap1 = ap\<lparr>state := (state ap)\<lparr>acts := (acts (state ap))[i := a']\<rparr>\<rparr>;
                       ap2 = saveState ap1
                   in ap2\<lparr>dragState := (dragState ap2)\<lparr>actId := None\<rparr>\<rparr>))))"

section \<open>Settings: handleSettingsSubmit\<close>

text \<open>
  The two arguments are the values of the form fields \<open>setting-start-hour\<close> and
  \<open>setting-end-hour\<close>. On rejection the function alerts and returns.
\<close>

definition handleSettingsSubmit :: "app \<Rightarrow> string \<Rightarrow> string \<Rightarrow> app" where
  "handleSettingsSubmit ap startValue endValue =
     (let start = parseInt10 startValue;
          end' = parseInt10 endValue
      in if js_ge start end' then ap
         else saveState (ap\<lparr>CONFIG := (CONFIG ap)\<lparr>startHour := start, endHour := end'\<rparr>\<rparr>))"

section \<open>Individual export: handleIndividualExportSubmit\<close>

text \<open>\<open>xs.includes(x)\<close> and \<open>xs.some(p)\<close>.\<close>

fun includes_js :: "'a list \<Rightarrow> 'a \<Rightarrow> bool" where
  "includes_js [] x = False"
| "includes_js (y # ys) x = (if y = x then True else includes_js ys x)"

fun some :: "('a \<Rightarrow> bool) \<Rightarrow> 'a list \<Rightarrow> bool" where
  "some p [] = False"
| "some p (x # xs) = (if p x then True else some p xs)"

text \<open>The callback given to \<open>this.state.acts.filter\<close>.\<close>

definition memberAct :: "member \<Rightarrow> act \<Rightarrow> bool" where
  "memberAct m a =
     (case category a of
        None \<Rightarrow> False
      | Some c \<Rightarrow>
          if c = [] then False
          else (let cats = map trim (split CHR '','' c)
                in some (\<lambda>team. includes_js cats team) (teams m)))"

text \<open>
  The result is \<open>None\<close> when no member has the selected id (the function returns), and
  otherwise the acts and the title handed to \<open>generateSpecializedExport\<close>.
\<close>

definition handleIndividualExportSubmit :: "app \<Rightarrow> string \<Rightarrow> (act list \<times> string) option" where
  "handleIndividualExportSubmit ap memId =
     (case find (\<lambda>m. member_id m = memId) (members (state ap)) of
        None \<Rightarrow> None
      | Some m \<Rightarrow> Some (filter (memberAct m) (acts (state ap)), member_name m))"

section \<open>Starting a drag: handleDragStart\<close>

text \<open>
  \<open>handleDragStart(e, act)\<close>; of the event, \<open>e.clientY\<close> and the top of the bounding
  rectangle of the card are used.
\<close>

definition handleDragStart :: "app \<Rightarrow> act \<Rightarrow> rat \<Rightarrow> rat \<Rightarrow> app" where
  "handleDragStart ap a clientY rectTop =
     ap\<lparr>dragState := \<lparr>actId = Some (act_id a), offsetY = clientY - rectTop\<rparr>\<rparr>"

section \<open>Reference notions\<close>

text \<open>
  The notions below are not functions of the program. They state, in the words of the
  specification, what the program is compared with.
\<close>

text \<open>A number below 100 written with two decimal digits, zero-padded.\<close>

definition two_digits :: "nat \<Rightarrow> string" where
  "two_digits n = [digit_char (n div 10), digit_char (n mod 10)]"

text \<open>
  A valid time string HH:MM: two digits, a colon, two digits, the hour below 24 and the
  minute below 60.
\<close>

definition valid_time :: "string \<Rightarrow> bool" where
  "valid_time s =
     (case s of
        [a, b, c, d, e] \<Rightarrow>
          is_digit a \<and> is_digit b \<and> c = CHR '':'' \<and> is_digit d \<and> is_digit e \<and>
          10 * digit_val a + digit_val b < 24 \<and> 10 * digit_val d + digit_val e < 60
      | _ \<Rightarrow> False)"

text \<open>Rounding to the nearest integer, a half going away from zero.\<close>

definition round_half_away_spec :: "rat \<Rightarrow> int" where
  "round_half_away_spec x = (if x < 0 then - \<lfloor>- x + 1 / 2\<rfloor> else \<lfloor>x + 1 / 2\<rfloor>)"

text \<open>
  Membership for the individual export: the category is present and not empty, and one of
  its comma-separated parts, trimmed, is equal to one of the member's team names.
\<close>

definition team_match_spec :: "member \<Rightarrow> act \<Rightarrow> bool" where
  "team_match_spec m a =
     (case category a of
        None \<Rightarrow> False
      | Some c \<Rightarrow> c \<noteq> [] \<and> (\<exists>team \<in> set (teams m). \<exists>part \<in> set (split CHR '','' c). trim part = team))"

section \<open>Concrete states\<close>

text \<open>
  The values the constructor gives \<open>CONFIG\<close>, and a small initial state: two stages, one
  act from 10:00 to 11:00 with an empty category, no member, nothing dragged, nothing stored.
\<close>

definition default_config :: app_config where
  "default_config = \<lparr>startHour = Some 9, endHour = Some 22, pixelsPerHour = 300, snapMinutes = 5\<rparr>"

definition opening_act :: act where
  "opening_act = \<lparr>act_id = ''act-1'', stageId = ''stage-1'', act_name = ''Opening Act'',
                   startTime = ''10:00'', endTime = ''11:00'', color = ''#3b82f6'',
                   category = Some []\<rparr>"

definition default_app :: app where
  "default_app =
     \<lparr>CONFIG = default_config,
      state = \<lparr>config = \<lparr>saved_startHour = Some 9, saved_endHour = Some 22\<rparr>,
               stages = [\<lparr>stage_id = ''stage-1'', stage_name = ''Main Stage''\<rparr>,
                         \<lparr>stage_id = ''stage-2'', stage_name = ''Second Stage''\<rparr>],
               acts = [opening_act],
               members = []\<rparr>,
      dragState = \<lparr>actId = None, offsetY = 0\<rparr>,
      isReadOnly = False,
      localStorage = None\<rparr>"

text \<open>The same window on a grid of one minute.\<close>

definition snap1_config :: app_config where
  "snap1_config = default_config\<lparr>snapMinutes := 1\<rparr>"

text \<open>
  The least positive double, and the window on a grid of one minute with that number of
  pixels per hour.
\<close>

definition min_subnormal :: rat where
  "min_subnormal = 2 powi (- 1074)"

definition tiny_config :: app_config where
  "tiny_config = snap1_config\<lparr>pixelsPerHour := min_subnormal\<rparr>"

text \<open>
  Acts with other times, as the edit form can give them: 09:11 to 09:56; 10:45 to 11:30;
  10:00 to 10:07, a duration off the five-minute grid; 08:00 to 23:00, longer than the
  window of 9 to 22.
\<close>

definition early_act :: act where
  "early_act = opening_act\<lparr>startTime := ''09:11'', endTime := ''09:56''\<rparr>"

definition rehearsal_act :: act where
  "rehearsal_act = opening_act\<lparr>startTime := ''10:45'', endTime := ''11:30''\<rparr>"


definition long_act :: act where
  "long_act = opening_act\<lparr>startTime := ''08:00'', endTime := ''23:00''\<rparr>"

text \<open>
  The initial state after the drag of its act has started 10 pixels below the top of the
  card, and a state whose only act is the long one, dragged by its top edge.
\<close>

definition dragging_app :: app where
  "dragging_app = handleDragStart default_app opening_act 110 100"

definition long_app :: app where
  "long_app = handleDragStart (default_app\<lparr>state := (state default_app)\<lparr>acts := [long_act]\<rparr>\<rparr>) long_act 0 0"

text \<open>
  A state with one member of the teams Snap and Exits and four acts: one of the team
  Snappy, one of the team Exits (written with spaces around it), one with an empty category
  and one without a category.
\<close>

definition export_app :: app where
  "export_app = default_app\<lparr>state := (state default_app)
     \<lparr>acts := [opening_act\<lparr>act_id := ''act-2'', category := Some ''Snappy, Full City''\<rparr>,
               opening_act\<lparr>act_id := ''act-3'', category := Some '' Exits ,Ultra L''\<rparr>,
               opening_act,
               opening_act\<lparr>act_id := ''act-4'', category := None\<rparr>],
      members := [\<lparr>member_id = ''mem-1'', member_name = ''Aki'', teams = [''Snap'', ''Exits'']\<rparr>]\<rparr>\<rparr>"

text \<open>That state after the drag of its second act has started 10 pixels below the top of the card.\<close>

definition dragging_export_app :: app where
  "dragging_export_app = handleDragStart export_app (acts (state export_app) ! 1) 110 100"

section \<open>Rounding to doubles\<close>

lemma min_normal_pos: "0 < min_normal"
  by (simp only: min_normal_def zero_less_power_int zero_less_numeral)

lemma min_normal_le: "- 1022 \<le> k \<Longrightarrow> min_normal \<le> 2 powi k"
  unfolding min_normal_def by (rule power_int_increasing) simp_all

lemma pow2_nat_powi: "0 \<le> k \<Longrightarrow> (2::rat) ^ nat k = 2 powi k"
  by (simp add: power_int_def)

lemma ilog2_bounds:
  assumes "0 < x"
  shows "2 powi ilog2 x \<le> x \<and> x < 2 powi (ilog2 x + 1)"
proof -
  obtain p q where pq: "quotient_of x = (p, q)" by (cases "quotient_of x")
  then have q: "0 < q" by (rule quotient_of_denom_pos)
  from pq have x: "x = of_int p / of_int q" by (rule quotient_of_div)
  with assms q have p: "0 < p" by (simp add: zero_less_divide_iff)
  let ?bp = "bitlen p" and ?bq = "bitlen q"
  from p have bp1: "1 \<le> ?bp" by (simp add: bitlen_alt_def)
  from q have bq1: "1 \<le> ?bq" by (simp add: bitlen_alt_def)
  from bitlen_bounds [OF p] have "2 ^ nat (?bp - 1) \<le> p" "p < 2 ^ nat ?bp" by simp_all
  then have "(of_int (2 ^ nat (?bp - 1)) :: rat) \<le> of_int p" "(of_int p :: rat) < of_int (2 ^ nat ?bp)"
    by (simp_all only: of_int_le_iff of_int_less_iff)
  with bp1 have pb: "2 powi (?bp - 1) \<le> (of_int p :: rat)" "(of_int p :: rat) < 2 powi ?bp"
    by (simp_all add: pow2_nat_powi)
  from bitlen_bounds [OF q] have "2 ^ nat (?bq - 1) \<le> q" "q < 2 ^ nat ?bq" by simp_all
  then have "(of_int (2 ^ nat (?bq - 1)) :: rat) \<le> of_int q" "(of_int q :: rat) < of_int (2 ^ nat ?bq)"
    by (simp_all only: of_int_le_iff of_int_less_iff)
  with bq1 have qb: "2 powi (?bq - 1) \<le> (of_int q :: rat)" "(of_int q :: rat) < 2 powi ?bq"
    by (simp_all add: pow2_nat_powi)
  let ?d = "?bp - ?bq"
  have q0: "(0::rat) < of_int q" using q by simp
  have up: "x < 2 powi (?d + 1)"
  proof -
    have "of_int p < (2::rat) powi ?bp" by (rule pb)
    also have "\<dots> = 2 powi (?d + 1) * 2 powi (?bq - 1)"
      by (simp add: power_int_add [symmetric])
    also have "\<dots> \<le> 2 powi (?d + 1) * of_int q"
      using qb(1) by (intro mult_left_mono) simp_all
    finally show ?thesis using q0 by (simp add: x pos_divide_less_eq)
  qed
  have lo: "2 powi (?d - 1) < x"
  proof -
    have "2 powi (?d - 1) * of_int q < 2 powi (?d - 1) * (2::rat) powi ?bq"
      using qb(2) by (intro mult_strict_left_mono) simp_all
    also have "\<dots> = 2 powi (?bp - 1)"
      by (simp add: power_int_add [symmetric])
    also have "\<dots> \<le> of_int p" by (rule pb)
    finally show ?thesis using q0 by (simp add: x pos_less_divide_eq)
  qed
  show ?thesis
  proof (cases "2 powi ?d \<le> x")
    case True
    then have "ilog2 x = ?d" by (simp add: ilog2_def pq Let_def)
    with True up show ?thesis by simp
  next
    case False
    then have "ilog2 x = ?d - 1" by (simp add: ilog2_def pq Let_def)
    with False lo show ?thesis by simp
  qed
qed

lemma ilog2_eqI:
  assumes "2 powi k \<le> x" and "x < 2 powi (k + 1)"
  shows "ilog2 x = k"
proof -
  have "(0::rat) < 2 powi k" by simp
  with assms(1) have x: "0 < x" by linarith
  from ilog2_bounds [OF x] have b: "2 powi ilog2 x \<le> x" "x < 2 powi (ilog2 x + 1)" by simp_all
  have "ilog2 x < k + 1"
  proof (rule ccontr)
    assume "\<not> ilog2 x < k + 1"
    then have "(2::rat) powi (k + 1) \<le> 2 powi ilog2 x"
      by (intro power_int_increasing) simp_all
    with b(1) assms(2) show False by linarith
  qed
  moreover have "k < ilog2 x + 1"
  proof (rule ccontr)
    assume "\<not> k < ilog2 x + 1"
    then have "(2::rat) powi (ilog2 x + 1) \<le> 2 powi k"
      by (intro power_int_increasing) simp_all
    with b(2) assms(1) show False by linarith
  qed
  ultimately show ?thesis by simp
qed


lemma round_even_error: "\<bar>of_int (round_even y) - y\<bar> \<le> 1 / 2"
proof -
  have "of_int \<lfloor>y\<rfloor> \<le> y" "y < of_int \<lfloor>y\<rfloor> + 1" by linarith+
  then show ?thesis
    unfolding round_even_def Let_def by (auto simp: abs_le_iff)
qed

lemma round_even_of_int: "round_even (of_int j) = j"
  by (simp add: round_even_def)

lemma fl_0: "fl 0 = 0"
  by (simp add: fl_def)

lemma ulp_exp_normal:
  assumes "min_normal \<le> \<bar>x\<bar>"
  shows "ulp_exp x = ilog2 \<bar>x\<bar> - 52"
proof -
  from min_normal_pos assms have x: "0 < \<bar>x\<bar>" by linarith
  have "- 1022 < ilog2 \<bar>x\<bar> + 1"
  proof (rule ccontr)
    assume "\<not> - 1022 < ilog2 \<bar>x\<bar> + 1"
    then have "(2::rat) powi (ilog2 \<bar>x\<bar> + 1) \<le> min_normal"
      unfolding min_normal_def by (intro power_int_increasing) simp_all
    with ilog2_bounds [OF x] assms show False by linarith
  qed
  then show ?thesis by (simp add: ulp_exp_def)
qed

text \<open>Relative error of one rounding in the normal range.\<close>

lemma fl_error:
  assumes "min_normal \<le> \<bar>x\<bar>"
  shows "\<bar>fl x - x\<bar> \<le> \<bar>x\<bar> / 2 ^ 53"
proof -
  from min_normal_pos assms have x: "0 < \<bar>x\<bar>" by linarith
  then have x0: "x \<noteq> 0" by simp
  let ?e = "ulp_exp x"
  let ?s = "(2::rat) powi ?e"
  have s: "0 < ?s" by simp
  have e: "?e = ilog2 \<bar>x\<bar> - 52" by (rule ulp_exp_normal [OF assms])
  have "fl x - x = (of_int (round_even (x / ?s)) - x / ?s) * ?s"
    using x0 s by (simp add: fl_def algebra_simps)
  then have "\<bar>fl x - x\<bar> = \<bar>of_int (round_even (x / ?s)) - x / ?s\<bar> * ?s"
    using s by (simp add: abs_mult)
  also have "\<dots> \<le> 1 / 2 * ?s"
    using s round_even_error [of "x / ?s"] by (intro mult_right_mono) simp_all
  also have "\<dots> = 2 powi ilog2 \<bar>x\<bar> / 2 ^ 53"
  proof -
    have "(2::rat) powi ilog2 \<bar>x\<bar> = 2 powi (?e + 52)" by (simp add: e)
    also have "\<dots> = ?s * 2 ^ 52" by (simp add: power_int_add)
    finally show ?thesis by simp
  qed
  also have "\<dots> \<le> \<bar>x\<bar> / 2 ^ 53"
    using ilog2_bounds [OF x] by (simp add: divide_right_mono)
  finally show ?thesis .
qed

text \<open>A number that is a multiple of its last place is a double.\<close>

lemma fl_exact:
  assumes "x / 2 powi ulp_exp x = of_int j"
  shows "fl x = x"
proof (cases "x = 0")
  case True
  then show ?thesis by (simp add: fl_0)
next
  case False
  have "(2::rat) powi ulp_exp x \<noteq> 0" by simp
  with assms have "x = of_int j * 2 powi ulp_exp x" by (simp add: field_simps)
  with False assms show ?thesis by (simp add: fl_def round_even_of_int)
qed

lemma fl_of_int:
  assumes "\<bar>k\<bar> < 2 ^ 53"
  shows "fl (of_int k) = of_int k"
proof (cases "k = 0")
  case True
  then show ?thesis by (simp add: fl_0)
next
  case False
  let ?x = "of_int k :: rat"
  have x1: "1 \<le> \<bar>?x\<bar>" using False by (simp flip: of_int_abs)
  then have x: "0 < \<bar>?x\<bar>" by linarith
  have "min_normal \<le> 1" using min_normal_le [of 0] by simp
  hence "min_normal \<le> \<bar>?x\<bar>" using x1 by linarith
  then have e: "ulp_exp ?x = ilog2 \<bar>?x\<bar> - 52" by (rule ulp_exp_normal)
  from assms have "(of_int \<bar>k\<bar> :: rat) < of_int (2 ^ 53)" by (simp only: of_int_less_iff)
  then have "\<bar>?x\<bar> < 2 ^ 53" by simp
  have "ilog2 \<bar>?x\<bar> < 53"
  proof (rule ccontr)
    assume "\<not> ilog2 \<bar>?x\<bar> < 53"
    then have "(2::rat) powi 53 \<le> 2 powi ilog2 \<bar>?x\<bar>"
      by (intro power_int_increasing) simp_all
    moreover have "(2::rat) powi 53 = 2 ^ 53" by simp
    ultimately show False using ilog2_bounds [OF x] \<open>\<bar>?x\<bar> < 2 ^ 53\<close> by linarith
  qed
  then have le: "ulp_exp ?x \<le> 0" by (simp add: e)
  then have "(2::rat) powi ulp_exp ?x = 1 / 2 ^ nat (- ulp_exp ?x)"
    by (simp add: power_int_def inverse_eq_divide power_one_over)
  then have "?x / 2 powi ulp_exp ?x = of_int (k * 2 ^ nat (- ulp_exp ?x))" by simp
  then show ?thesis by (rule fl_exact)
qed


lemma fl_between:
  assumes "min_normal \<le> lo" and "lo \<le> x" and "x \<le> hi"
  shows "lo * 1048575 / 1048576 \<le> fl x \<and> fl x \<le> hi * 1048577 / 1048576"
proof -
  from min_normal_pos assms have x: "0 < x" by linarith
  then have "min_normal \<le> \<bar>x\<bar>" using assms by simp
  from fl_error [OF this] x have "\<bar>fl x - x\<bar> \<le> x / 2 ^ 53" by simp
  then have "\<bar>fl x - x\<bar> \<le> x / 9007199254740992" by simp
  with x assms(2,3) show ?thesis by linarith
qed

lemma min_normal_le_64: "min_normal \<le> 1 / 64"
  using min_normal_le [of "- 6"] by simp

text \<open>The quotient by 60 of an integer below \<open>2 ^ 53\<close> keeps its integer part when rounded.\<close>

lemma floor_fl_div60:
  assumes "0 \<le> n" and "n < 2 ^ 53"
  shows "\<lfloor>fl (of_int n / 60)\<rfloor> = n div 60"
proof -
  let ?q = "n div 60" and ?r = "n mod 60"
  let ?x = "of_int n / 60 :: rat"
  have n: "n = ?q * 60 + ?r" by simp
  have r: "0 \<le> ?r" "?r < 60" by simp_all
  have q: "0 \<le> ?q" "?q < 2 ^ 53" using assms by simp_all
  have "(of_int n :: rat) = of_int (?q * 60 + ?r)" by (simp only: n [symmetric])
  also have "\<dots> = of_int ?q * 60 + of_int ?r"
    by (simp only: of_int_add of_int_mult of_int_numeral)
  finally have nq: "(of_int n :: rat) = of_int ?q * 60 + of_int ?r" .
  have x: "?x = of_int ?q + of_int ?r / 60" by (subst nq) simp
  show ?thesis
  proof (cases "?r = 0")
    case True
    with x have "?x = of_int ?q" by simp
    moreover have "fl (of_int ?q) = (of_int ?q :: rat)" using q by (intro fl_of_int) simp
    ultimately show ?thesis by simp
  next
    case False
    with r have "1 \<le> ?r" "?r \<le> 59" by simp_all
    then have "(of_int 1 :: rat) \<le> of_int ?r" "(of_int ?r :: rat) \<le> of_int 59"
      by (simp_all only: of_int_le_iff)
    then have rr: "(1::rat) \<le> of_int ?r" "(of_int ?r :: rat) \<le> 59" by simp_all
    have qq: "(0::rat) \<le> of_int ?q" using q by simp
    from assms(2) have "(of_int n :: rat) < of_int (2 ^ 53)" by (simp only: of_int_less_iff)
    then have nn: "(of_int n :: rat) < 2 ^ 53" by simp
    have lo: "1 / 60 \<le> ?x" using x rr qq by simp
    with min_normal_le_64 have "min_normal \<le> \<bar>?x\<bar>" by simp
    from fl_error [OF this] lo have e: "\<bar>fl ?x - ?x\<bar> \<le> ?x / 2 ^ 53" by simp
    have "?x / 2 ^ 53 < 1 / 60" using nn by simp
    with e have "?x - 1 / 60 < fl ?x" "fl ?x < ?x + 1 / 60" by linarith+
    with x rr have "of_int ?q \<le> fl ?x" "fl ?x < of_int ?q + 1" by linarith+
    then show ?thesis by (simp add: floor_unique)
  qed
qed

text \<open>Below the normal range the last place is fixed.\<close>

lemma fl_subnormal:
  assumes "x \<noteq> 0" and "\<bar>x\<bar> < min_normal"
  shows "fl x = of_int (round_even (x / 2 powi (- 1074))) * 2 powi (- 1074)"
proof -
  from assms(1) have x: "0 < \<bar>x\<bar>" by simp
  have "ilog2 \<bar>x\<bar> < - 1022"
  proof (rule ccontr)
    assume "\<not> ilog2 \<bar>x\<bar> < - 1022"
    then have "min_normal \<le> 2 powi ilog2 \<bar>x\<bar>" by (intro min_normal_le) simp
    with ilog2_bounds [OF x] assms(2) show False by linarith
  qed
  then have "ulp_exp x = - 1074" by (simp add: ulp_exp_def)
  with assms(1) show ?thesis by (simp only: fl_def if_False)
qed

text \<open>
  Five roundings of a number between 1 and 1439, each of a value in the normal range, stay
  within a half of it: scaling by \<open>p\<close>, back, by 60 and by 1.
\<close>

lemma roundtrip_rounding:
  assumes "1 \<le> k" and "k < 1440" and "2 powi (- 1000) \<le> p"
  shows "\<lfloor>fl (fl (fl (fl (fl (of_int k / 60) * p) / p) * 60) / 1) + 1 / 2\<rfloor> = k"
proof -
  let ?A = "of_int k :: rat"
  from assms(2) have "k \<le> 1439" by simp
  with assms(1) have "(of_int 1 :: rat) \<le> of_int k" "(of_int k :: rat) \<le> of_int 1439"
    by (simp_all only: of_int_le_iff)
  then have A: "1 \<le> ?A" "?A \<le> 1439" by simp_all
  have "(0::rat) < 2 powi (- 1000)" by (simp only: zero_less_power_int zero_less_numeral)
  with assms(3) have p: "0 < p" by linarith
  let ?x1 = "fl (?A / 60)"
  let ?x2 = "fl (?x1 * p)"
  let ?x3 = "fl (?x2 / p)"
  let ?x4 = "fl (?x3 * 60)"
  let ?x5 = "fl (?x4 / 1)"
  have m1: "min_normal \<le> ?A / 60" using A min_normal_le_64 by linarith
  from fl_between [OF m1 order_refl order_refl]
  have b1: "?A / 60 * 1048575 / 1048576 \<le> ?x1" "?x1 \<le> ?A / 60 * 1048577 / 1048576" by blast+
  have l1: "1 / 64 \<le> ?x1" using b1(1) A by linarith
  have "min_normal \<le> 2 powi (- 1006)" by (intro min_normal_le) simp
  also have "(2::rat) powi (- 1006) = 2 powi (- 6) * 2 powi (- 1000)"
    by (subst power_int_add [symmetric]) simp_all
  also have "\<dots> \<le> ?x1 * p"
    using l1 assms(3) p by (intro mult_mono) simp_all
  finally have m2: "min_normal \<le> ?x1 * p" .
  from fl_between [OF m2 order_refl order_refl]
  have b2: "?x1 * p * 1048575 / 1048576 \<le> ?x2" "?x2 \<le> ?x1 * p * 1048577 / 1048576" by blast+
  have f: "(?x1 * 1048575 / 1048576) * p \<le> ?x2" "?x2 \<le> (?x1 * 1048577 / 1048576) * p"
    using b2 by (simp_all add: mult.commute)
  have d2: "?x1 * 1048575 / 1048576 \<le> ?x2 / p" "?x2 / p \<le> ?x1 * 1048577 / 1048576"
    using f(1) apply (rule iffD2 [OF pos_le_divide_eq [OF p]])
    using f(2) apply (rule iffD2 [OF pos_divide_le_eq [OF p]])
    done
  have z: "?A / 60 * 1048575 / 1048576 * 1048575 / 1048576 \<le> ?x2 / p"
    "?x2 / p \<le> ?A / 60 * 1048577 / 1048576 * 1048577 / 1048576"
    using d2 b1 by linarith+
  have m3: "min_normal \<le> ?A / 60 * 1048575 / 1048576 * 1048575 / 1048576"
    using A min_normal_le_64 by linarith
  from fl_between [OF m3 z]
  have b3: "?A / 60 * 1048575 / 1048576 * 1048575 / 1048576 * 1048575 / 1048576 \<le> ?x3"
    "?x3 \<le> ?A / 60 * 1048577 / 1048576 * 1048577 / 1048576 * 1048577 / 1048576" by blast+
  have b4': "?A * 1048575 / 1048576 * 1048575 / 1048576 * 1048575 / 1048576 \<le> ?x3 * 60"
    "?x3 * 60 \<le> ?A * 1048577 / 1048576 * 1048577 / 1048576 * 1048577 / 1048576"
    using b3 by linarith+
  have m4: "min_normal \<le> ?A * 1048575 / 1048576 * 1048575 / 1048576 * 1048575 / 1048576"
    using A min_normal_le_64 by linarith
  from fl_between [OF m4 b4']
  have b4: "?A * 1048575 / 1048576 * 1048575 / 1048576 * 1048575 / 1048576 * 1048575 / 1048576 \<le> ?x4"
    "?x4 \<le> ?A * 1048577 / 1048576 * 1048577 / 1048576 * 1048577 / 1048576 * 1048577 / 1048576"
    by blast+
  have b5': "?A * 1048575 / 1048576 * 1048575 / 1048576 * 1048575 / 1048576 * 1048575 / 1048576 \<le> ?x4 / 1"
    "?x4 / 1 \<le> ?A * 1048577 / 1048576 * 1048577 / 1048576 * 1048577 / 1048576 * 1048577 / 1048576"
    using b4 by (simp_all only: div_by_1)
  have m5: "min_normal \<le> ?A * 1048575 / 1048576 * 1048575 / 1048576 * 1048575 / 1048576 * 1048575 / 1048576"
    using A min_normal_le_64 by linarith
  from fl_between [OF m5 b5']
  have b5: "?A * 1048575 / 1048576 * 1048575 / 1048576 * 1048575 / 1048576 * 1048575 / 1048576 * 1048575 / 1048576 \<le> ?x5"
    "?x5 \<le> ?A * 1048577 / 1048576 * 1048577 / 1048576 * 1048577 / 1048576 * 1048577 / 1048576 * 1048577 / 1048576"
    by blast+
  have "?A - 1 / 2 < ?x5" "?x5 < ?A + 1 / 2" using b5 A by linarith+
  then have "of_int k \<le> ?x5 + 1 / 2" "?x5 + 1 / 2 < of_int k + 1" by linarith+
  then show ?thesis by (simp only: floor_unique)
qed

section \<open>Auxiliary facts\<close>

lemma Math_floor_div: "0 \<le> n \<Longrightarrow> n < 2 ^ 53 \<Longrightarrow> Math_floor (fl (of_int n / 60)) = n div 60"
  unfolding Math_floor_def by (rule floor_fl_div60)

lemma js_rem_nonneg: "0 \<le> a \<Longrightarrow> 0 < b \<Longrightarrow> js_rem a b = a mod b"
  by (cases "a = 0") (simp_all add: js_rem_def)

lemma digit_char_0: "digit_char 0 = CHR ''0''"
proof -
  have "(of_char (digit_char 0) :: nat) = of_char CHR ''0''"
    by (simp add: digit_char_def)
  then show ?thesis by (simp only: of_char_eq_iff)
qed

lemma digit_val_char: "n < 10 \<Longrightarrow> digit_val (digit_char n) = n"
  by (simp add: digit_val_def digit_char_def)

lemma digit_char_val: "is_digit c \<Longrightarrow> digit_char (digit_val c) = c"
  by (simp add: digit_val_def digit_char_def is_digit_def)

lemma is_digit_char: "n < 10 \<Longrightarrow> is_digit (digit_char n)"
  by (simp add: is_digit_def digit_char_def)

lemma digits_small: "n < 10 \<Longrightarrow> digits n = [digit_char n]"
  by (simp add: digits.simps)

lemma digits_two: "10 \<le> n \<Longrightarrow> n < 100 \<Longrightarrow> digits n = [digit_char (n div 10), digit_char (n mod 10)]"
  by (subst digits.simps) (simp add: digits_small)

lemma pad_two: "n < 100 \<Longrightarrow> padStart 2 CHR ''0'' (digits n) = two_digits n"
proof (cases "n < 10")
  case True
  then show ?thesis by (simp add: padStart_def digits_small two_digits_def digit_char_0)
next
  case False
  assume "n < 100"
  with False show ?thesis by (simp add: padStart_def digits_two two_digits_def)
qed

lemma String_of_nonneg: "0 \<le> i \<Longrightarrow> String_of (Some i) = digits (nat i)"
  by (simp add: String_of_def)

lemma formatTime_nonneg:
  assumes "0 \<le> t" and "t < 2 ^ 53"
  shows "formatTime (Some t) = two_digits (nat ((t div 60) mod 24)) @ '':'' @ two_digits (nat (t mod 60))"
proof -
  let ?h = "t div 60"
  have h0: "0 \<le> ?h" using assms(1) by (simp add: pos_imp_zdiv_nonneg_iff)
  have h': "(if ?h \<ge> 24 then js_rem ?h 24 else ?h) = ?h mod 24"
    using h0 by (simp add: js_rem_nonneg)
  have m: "js_rem t 60 = t mod 60" using assms(1) by (simp add: js_rem_nonneg)
  have ph: "padStart 2 CHR ''0'' (String_of (Some (?h mod 24))) = two_digits (nat (?h mod 24))"
    by (simp add: String_of_nonneg pad_two)
  have pm: "padStart 2 CHR ''0'' (String_of (Some (t mod 60))) = two_digits (nat (t mod 60))"
    by (simp add: String_of_nonneg pad_two)
  show ?thesis
    unfolding formatTime_def by (simp only: option.case Math_floor_div [OF assms] Let_def h' m ph pm)
qed

lemma digit_not_ws: "is_digit c \<Longrightarrow> \<not> is_ws c"
  by (auto simp: is_digit_def is_ws_def)

lemma digit_not_colon: "is_digit c \<Longrightarrow> c \<noteq> CHR '':''"
  by (auto simp: is_digit_def)

lemma digit_not_sign: "is_digit c \<Longrightarrow> c \<noteq> CHR ''-'' \<and> c \<noteq> CHR ''+''"
  by (auto simp: is_digit_def)

lemma minus_not_ws: "\<not> is_ws CHR ''-''"
  by (simp add: is_ws_def)

lemma minus_not_digit: "\<not> is_digit CHR ''-''"
  by (simp add: is_digit_def)

lemma trim_id: "s \<noteq> [] \<Longrightarrow> \<not> is_ws (hd s) \<Longrightarrow> \<not> is_ws (last s) \<Longrightarrow> trim s = s"
proof -
  assume ne: "s \<noteq> []" and h: "\<not> is_ws (hd s)" and l: "\<not> is_ws (last s)"
  have dw: "dropWhile is_ws xs = xs" if "xs \<noteq> []" "\<not> is_ws (hd xs)" for xs
    using that by (cases xs) simp_all
  from ne h have d1: "dropWhile is_ws s = s" by (rule dw)
  from ne l have d2: "dropWhile is_ws (rev s) = rev s"
    by (intro dw) (simp_all add: hd_rev)
  show ?thesis by (simp add: trim_def d1 d2)
qed

lemma dec_snoc: "dec (xs @ [c]) = 10 * dec xs + digit_val c"
  by (simp add: dec_def)

lemma dec_zero_cons: "dec (CHR ''0'' # s) = dec s"
  by (simp add: dec_def digit_val_def)

lemma dec_replicate_zero: "dec (replicate k CHR ''0'' @ s) = dec s"
  by (induction k) (simp_all add: dec_zero_cons)

lemma digits_nonempty: "digits n \<noteq> []"
  by (subst digits.simps) simp

lemma dec_digits: "dec (digits n) = n"
proof (induction n rule: digits.induct)
  case (1 n)
  show ?case
  proof (cases "n < 10")
    case True
    then show ?thesis by (simp add: digits_small dec_def digit_val_char)
  next
    case False
    then have "digits n = digits (n div 10) @ [digit_char (n mod 10)]"
      by (subst digits.simps) simp
    with 1 False show ?thesis by (simp add: dec_snoc digit_val_char)
  qed
qed

lemma digits_all: "list_all is_digit (digits n)"
proof (induction n rule: digits.induct)
  case (1 n)
  show ?case
  proof (cases "n < 10")
    case True
    then show ?thesis by (simp add: digits_small is_digit_char)
  next
    case False
    then have "digits n = digits (n div 10) @ [digit_char (n mod 10)]"
      by (subst digits.simps) simp
    with 1 False show ?thesis by (simp add: is_digit_char)
  qed
qed

lemma Number_digit_string:
  assumes "s \<noteq> []" and "list_all is_digit s"
  shows "Number s = Some (int (dec s))"
proof -
  from assms have "is_digit (hd s)" "is_digit (last s)"
    by (simp_all add: list_all_iff)
  with assms(1) have "trim s = s" by (simp add: trim_id digit_not_ws)
  with assms show ?thesis by (simp add: Number_def)
qed

lemma Number_minus_digit_string:
  assumes "r \<noteq> []" and "list_all is_digit r"
  shows "Number (CHR ''-'' # r) = Some (- int (dec r))"
proof -
  from assms have "is_digit (last r)" by (simp add: list_all_iff)
  with assms(1) have "trim (CHR ''-'' # r) = CHR ''-'' # r"
    by (simp add: trim_id digit_not_ws minus_not_ws)
  with assms show ?thesis by (simp add: Number_def minus_not_digit)
qed

lemma zero_is_digit: "is_digit CHR ''0''"
  by (simp add: is_digit_def)

lemma Number_padStart:
  "Number (padStart 2 CHR ''0'' (String_of (Some i))) = Some i"
proof (cases "i < 0")
  case True
  have "length (CHR ''-'' # digits (nat (- i))) \<ge> 2"
    using digits_nonempty [of "nat (- i)"] by (cases "digits (nat (- i))") simp_all
  then have "padStart 2 CHR ''0'' (CHR ''-'' # digits (nat (- i))) = CHR ''-'' # digits (nat (- i))"
    by (simp add: padStart_def)
  with True show ?thesis
    by (simp add: String_of_def Number_minus_digit_string digits_nonempty digits_all dec_digits)
next
  case False
  let ?s = "replicate (2 - length (digits (nat i))) CHR ''0'' @ digits (nat i)"
  have "?s \<noteq> []" by (simp add: digits_nonempty)
  moreover have "list_all is_digit ?s"
    using digits_all [of "nat i"] by (auto simp: list_all_iff zero_is_digit)
  ultimately have "Number ?s = Some (int (dec ?s))" by (rule Number_digit_string)
  with False show ?thesis
    by (simp add: String_of_def padStart_def dec_replicate_zero dec_digits)
qed

lemma split_no_sep: "sep \<notin> set b \<Longrightarrow> split sep b = [b]"
  by (induction b) auto

lemma split_at_sep: "sep \<notin> set a \<Longrightarrow> sep \<notin> set b \<Longrightarrow> split sep (a @ sep # b) = [a, b]"
  by (induction a) (auto simp: split_no_sep)

lemma String_of_no_colon: "CHR '':'' \<notin> set (String_of (Some i))"
  using digits_all [of "nat i"] digits_all [of "nat (- i)"]
  by (auto simp: String_of_def list_all_iff dest: digit_not_colon)

lemma padStart_no_colon: "CHR '':'' \<notin> set (padStart 2 CHR ''0'' (String_of (Some i)))"
  using String_of_no_colon [of i] by (auto simp: padStart_def)

lemma formatTime_Some:
  "formatTime (Some t) =
     padStart 2 CHR ''0'' (String_of (Some (wrap_hour (Math_floor (fl (of_int t / 60)))))) @ CHR '':'' #
     padStart 2 CHR ''0'' (String_of (Some (js_rem t 60)))"
  by (simp add: formatTime_def Let_def wrap_hour_def)

lemma splitHM_formatTime:
  "splitHM (formatTime (Some t)) =
     (Some (wrap_hour (Math_floor (fl (of_int t / 60)))), Some (js_rem t 60))"
  by (simp add: formatTime_Some splitHM_def split_at_sep padStart_no_colon Number_padStart)

lemma totalMin_formatTime:
  assumes "0 \<le> t" and "t < 1440"
  shows "totalMin (formatTime (Some t)) = Some t"
proof -
  have f: "Math_floor (fl (of_int t / 60)) = t div 60"
    using assms by (intro Math_floor_div) simp_all
  have "t div 60 < 24" using assms by simp
  then have "wrap_hour (t div 60) = t div 60" by (simp add: wrap_hour_def)
  moreover have "js_rem t 60 = t mod 60" using assms by (simp add: js_rem_nonneg)
  ultimately show ?thesis
    by (simp add: totalMin_def splitHM_formatTime f js_add_def js_mul_def)
qed

lemma valid_timeE:
  assumes "valid_time s"
  obtains a b d e where "s = [a, b, CHR '':'', d, e]"
    "is_digit a" "is_digit b" "is_digit d" "is_digit e"
    "10 * digit_val a + digit_val b < 24" "10 * digit_val d + digit_val e < 60"
  using assms unfolding valid_time_def
  by (auto split: list.splits)

lemma Number_two: "is_digit a \<Longrightarrow> is_digit b \<Longrightarrow> Number [a, b] = Some (int (10 * digit_val a + digit_val b))"
  by (simp add: Number_digit_string dec_def)

lemma digit_val_less: "is_digit c \<Longrightarrow> digit_val c < 10"
  by (auto simp: is_digit_def digit_val_def)

lemma two_digits_val: "is_digit a \<Longrightarrow> is_digit b \<Longrightarrow> two_digits (10 * digit_val a + digit_val b) = [a, b]"
  using digit_val_less [of b] by (simp add: two_digits_def digit_char_val)

lemma totalMin_valid:
  assumes "valid_time s"
  shows "\<exists>h m. totalMin s = Some (h * 60 + m) \<and> 0 \<le> h \<and> h < 24 \<and> 0 \<le> m \<and> m < 60 \<and>
           s = two_digits (nat h) @ '':'' @ two_digits (nat m)"
proof -
  from assms obtain a b d e where s: "s = [a, b, CHR '':'', d, e]"
    and dg: "is_digit a" "is_digit b" "is_digit d" "is_digit e"
    and rg: "10 * digit_val a + digit_val b < 24" "10 * digit_val d + digit_val e < 60"
    by (rule valid_timeE)
  let ?h = "int (10 * digit_val a + digit_val b)" and ?m = "int (10 * digit_val d + digit_val e)"
  have "split CHR '':'' s = [[a, b], [d, e]]"
    using split_at_sep [of "CHR '':''" "[a, b]" "[d, e]"] dg s by (auto dest: digit_not_colon)
  then have "totalMin s = Some (?h * 60 + ?m)"
    using dg by (simp add: totalMin_def splitHM_def Number_two js_add_def js_mul_def)
  moreover have "s = two_digits (nat ?h) @ '':'' @ two_digits (nat ?m)"
    using dg s by (simp only: nat_int two_digits_val) simp
  ultimately show ?thesis using rg by (intro exI [of _ ?h] exI [of _ ?m]) simp
qed

lemma formatTime_totalMin:
  assumes "valid_time s"
  shows "formatTime (totalMin s) = s"
proof -
  from totalMin_valid [OF assms] obtain h m where
    t: "totalMin s = Some (h * 60 + m)" and b: "0 \<le> h" "h < 24" "0 \<le> m" "m < 60"
    and s: "s = two_digits (nat h) @ '':'' @ two_digits (nat m)" by blast
  have "(h * 60 + m) div 60 = h" "(h * 60 + m) mod 60 = m" using b by simp_all
  moreover have "h * 60 + m < 2 ^ 53" using b by simp
  ultimately show ?thesis using b t s by (simp add: formatTime_nonneg)
qed

lemma Math_round_of_int: "Math_round (of_int k) = k"
  unfolding Math_round_def by linarith

lemma Math_round_nearest: "\<bar>q - of_int (Math_round q)\<bar> \<le> \<bar>q - of_int j\<bar>"
proof -
  let ?r = "Math_round q"
  have lo: "of_int ?r \<le> q + 1 / 2" and hi: "q + 1 / 2 < of_int ?r + 1"
    unfolding Math_round_def by linarith+
  consider "j \<le> ?r - 1" | "j = ?r" | "?r + 1 \<le> j" by linarith
  then show ?thesis
  proof cases
    case 1
    then have "(of_int j :: rat) \<le> of_int ?r - 1"
      by (metis of_int_1 of_int_diff of_int_le_iff)
    with lo hi show ?thesis by linarith
  next
    case 2
    then show ?thesis by simp
  next
    case 3
    then have "(of_int ?r :: rat) + 1 \<le> of_int j"
      by (metis of_int_1 of_int_add of_int_le_iff)
    with lo hi show ?thesis by linarith
  qed
qed

lemma Math_round_half: "q = of_int k + 1 / 2 \<Longrightarrow> Math_round q = k + 1"
  unfolding Math_round_def by linarith

lemma clampedStartMin_Some:
  assumes "startHour cfg = Some sh" and "endHour cfg = Some eh" and "durationMin a = Some d"
  shows "clampedStartMin cfg y a =
           Some (max (sh * 60) (min (sh * 60 + snappedMinutes cfg y) (eh * 60 - d)))"
  using assms
  by (simp add: clampedStartMin_def globalStartMin_def globalEndMin_def newStartTotalMin_def
      Math_max_def Math_min_def js_add_def js_mul_def js_sub_def)

lemma fl_1: "fl 1 = 1"
  using fl_of_int [of 1] by simp

lemma fl_300: "fl 300 = 300"
  using fl_of_int [of 300] by simp

lemma min_subnormal_pos: "0 < min_subnormal"
  by (simp only: min_subnormal_def zero_less_power_int zero_less_numeral)

lemma fl_underflow_7_4: "fl (7 / 4 * min_subnormal) = 2 * min_subnormal"
proof -
  let ?x = "7 / 4 * min_subnormal"
  have x0: "?x \<noteq> 0" using min_subnormal_pos by simp
  have "?x < 2 powi 1 * min_subnormal" using min_subnormal_pos by simp
  also have "\<dots> = 2 powi (- 1073)"
    unfolding min_subnormal_def by (subst power_int_add [symmetric]) simp_all
  also have "\<dots> \<le> min_normal"
    unfolding min_normal_def by (rule power_int_increasing) simp_all
  finally have "\<bar>?x\<bar> < min_normal" using min_subnormal_pos by simp
  from fl_subnormal [OF x0 this]
  have f: "fl ?x = of_int (round_even (?x / min_subnormal)) * min_subnormal"
    by (simp only: min_subnormal_def)
  have q: "?x / min_subnormal = 7 / 4" using min_subnormal_pos by simp
  have r: "round_even (7 / 4) = 2" by code_simp
  show ?thesis by (simp only: f q r of_int_numeral)
qed

lemma durationMin_valid:
  assumes "valid_time (startTime a)" and "valid_time (endTime a)"
  shows "\<exists>s e. totalMin (startTime a) = Some s \<and> totalMin (endTime a) = Some e \<and>
           0 \<le> s \<and> s < 1440 \<and> 0 \<le> e \<and> e < 1440 \<and> durationMin a = Some (e - s)"
proof -
  from totalMin_valid [OF assms(1)] obtain h m where
    s: "totalMin (startTime a) = Some (h * 60 + m)" "0 \<le> h" "h < 24" "0 \<le> m" "m < 60"
    by blast
  from totalMin_valid [OF assms(2)] obtain h' m' where
    e: "totalMin (endTime a) = Some (h' * 60 + m')" "0 \<le> h'" "h' < 24" "0 \<le> m'" "m' < 60"
    by blast
  from s e show ?thesis by (simp add: durationMin_def js_sub_def)
qed

lemma fits_window_before_midnight:
  assumes "startHour cfg = Some sh" and "endHour cfg = Some eh" and "durationMin a = Some d"
    and "0 \<le> sh" and "eh \<le> 23" and "sh * 60 \<le> eh * 60 - d"
  shows "\<exists>cs. clampedStartMin cfg y a = Some cs \<and> 0 \<le> cs \<and> cs + d < 1440"
  using assms(4-6) by (simp add: clampedStartMin_Some [OF assms(1-3)]) linarith



lemma findIndex_Some: "findIndex p xs = Some i \<Longrightarrow> i < length xs \<and> p (xs ! i)"
proof (induction xs arbitrary: i)
  case Nil
  then show ?case by simp
next
  case (Cons x xs)
  show ?case
  proof (cases "p x")
    case True
    with Cons.prems show ?thesis by simp
  next
    case False
    with Cons.prems obtain j where "findIndex p xs = Some j" "i = Suc j" by auto
    with Cons.IH show ?thesis by simp
  qed
qed

lemma saveState_frame:
  "acts (state (saveState ap)) = acts (state ap) \<and>
   stages (state (saveState ap)) = stages (state ap) \<and>
   members (state (saveState ap)) = members (state ap) \<and>
   CONFIG (saveState ap) = CONFIG ap \<and> dragState (saveState ap) = dragState ap"
  by (simp add: saveState_def Let_def)

lemma handleDrop_found:
  assumes "actId (dragState ap) = Some aid" and "aid \<noteq> []"
    and "findIndex (\<lambda>a. act_id a = aid) (acts (state ap)) = Some i"
  shows "acts (state (handleDrop ap cy rtop sid)) =
           (acts (state ap))[i := (acts (state ap) ! i)
              \<lparr>stageId := sid,
               startTime := formatTime (clampedStartMin (CONFIG ap) (cy - rtop - offsetY (dragState ap)) (acts (state ap) ! i)),
               endTime := formatTime (clampedEndMin (CONFIG ap) (cy - rtop - offsetY (dragState ap)) (acts (state ap) ! i))\<rparr>]"
    and "stages (state (handleDrop ap cy rtop sid)) = stages (state ap)"
    and "members (state (handleDrop ap cy rtop sid)) = members (state ap)"
  using assms by (simp_all add: handleDrop_def Let_def saveState_frame)

lemma totalMin_0900: "totalMin ''09:00'' = Some 540"
  by code_simp

lemma totalMin_1000: "totalMin ''10:00'' = Some 600"
  by code_simp

lemma settings_reject:
  "js_ge (parseInt10 sv) (parseInt10 ev) \<Longrightarrow> handleSettingsSubmit ap sv ev = ap"
  by (simp add: handleSettingsSubmit_def)

lemma settings_accept:
  assumes "parseInt10 sv = Some s" and "parseInt10 ev = Some e" and "s < e"
  shows "CONFIG (handleSettingsSubmit ap sv ev) = (CONFIG ap)\<lparr>startHour := Some s, endHour := Some e\<rparr>"
    and "js_lt (startHour (CONFIG (handleSettingsSubmit ap sv ev))) (endHour (CONFIG (handleSettingsSubmit ap sv ev)))"
  using assms by (simp_all add: handleSettingsSubmit_def js_ge_def js_lt_def saveState_frame)

lemma includes_js_iff: "includes_js xs x \<longleftrightarrow> x \<in> set xs"
  by (induction xs) auto

lemma some_iff: "some p xs \<longleftrightarrow> (\<exists>x \<in> set xs. p x)"
  by (induction xs) auto

lemma memberAct_spec: "memberAct m a = team_match_spec m a"
  by (auto simp: memberAct_def team_match_spec_def some_iff includes_js_iff split: option.splits)

section \<open>Properties of the program\<close>

text \<open>
  C1 (round trip on a grid of one minute). Let the start time of an act be a valid time
  string whose minute of the day \<open>t\<close> lies between \<open>startHour * 60\<close> and
  \<open>endHour * 60 - duration\<close>, in a window with \<open>0 \<le> startHour < endHour\<close>, at a number
  of pixels per hour between \<open>2\<close> to the power \<open>-1000\<close> and \<open>2\<close> to the power \<open>1000\<close>.
  Then the top offset that \<open>createActCard\<close> gives the card, a rounded double, is turned
  back by a drop with \<open>snapMinutes = 1\<close> into the original time string, whatever act of
  that duration is dropped there: the five roundings on the way stay within half a minute.
\<close>

theorem roundtrip_snap1:
  assumes "valid_time (startTime a)"
    and "startHour cfg = Some sh" and "endHour cfg = Some eh" and "0 \<le> sh" and "sh < eh"
    and "2 powi (- 1000) \<le> pixelsPerHour cfg" and "pixelsPerHour cfg \<le> 2 powi 1000"
    and "snapMinutes cfg = 1"
    and "totalMin (startTime a) = Some t" and "durationMin b = Some d"
    and "sh * 60 \<le> t" and "t \<le> eh * 60 - d"
  shows "\<exists>y. topPx cfg a = Some y \<and> formatTime (clampedStartMin cfg y b) = startTime a"
proof -
  let ?p = "pixelsPerHour cfg"
  let ?k = "t - sh * 60"
  let ?y = "fl (fl (of_int ?k / 60) * ?p)"
  from totalMin_valid [OF assms(1)] assms(9) obtain h m where
    "t = h * 60 + m" "0 \<le> h" "h < 24" "0 \<le> m" "m < 60" by auto
  then have t: "t < 1440" by simp
  have k: "0 \<le> ?k" "?k < 1440" using assms(4,11) t by simp_all
  have top: "topPx cfg a = Some ?y"
    using assms(2,9) by (simp add: topPx_def js_sub_def js_mul_def)
  have "snappedMinutes cfg ?y = ?k"
  proof (cases "?k = 0")
    case True
    then show ?thesis
      using Math_round_of_int [of 0]
      by (simp add: snappedMinutes_def minutesFromStart_def fl_0 assms(8))
  next
    case False
    with k have "1 \<le> ?k" by simp
    from roundtrip_rounding [OF this k(2) assms(6)] show ?thesis
      by (simp only: snappedMinutes_def minutesFromStart_def Math_round_def assms(8)
          of_int_1 mult_1_right)
  qed
  then have "clampedStartMin cfg ?y b = Some t"
    using assms(11,12) by (simp add: clampedStartMin_Some [OF assms(2,3,10)])
  then have "formatTime (clampedStartMin cfg ?y b) = startTime a"
    using formatTime_totalMin [OF assms(1)] assms(9) by simp
  with top show ?thesis by blast
qed

text \<open>
  The round trip at 09:11 in the window from 9 to 22 at 300 pixels per hour: the card is
  placed at the double just below 55, and the act of one hour dropped there starts at 09:11.
\<close>

theorem roundtrip_snap1_witness:
  "topPx snap1_config early_act = Some (7740561859543039 / 140737488355328) \<and>
   formatTime (clampedStartMin snap1_config (7740561859543039 / 140737488355328) opening_act) =
     ''09:11''"
proof -
  have h1: "valid_time (startTime early_act)" by code_simp
  have h2: "startHour snap1_config = Some 9" by code_simp
  have h3: "endHour snap1_config = Some 22" by code_simp
  have h4: "(0::int) \<le> 9" "(9::int) < 22" by simp_all
  have p: "pixelsPerHour snap1_config = 300" by code_simp
  have "(2::rat) powi (- 1000) \<le> 2 powi 0" by (rule power_int_increasing) simp_all
  also have "(2::rat) powi 0 \<le> 300" by simp
  finally have h5: "2 powi (- 1000) \<le> pixelsPerHour snap1_config" by (simp only: p)
  have "(300::rat) \<le> 2 powi 9" by simp
  also have "(2::rat) powi 9 \<le> 2 powi 1000" by (rule power_int_increasing) simp_all
  finally have h6: "pixelsPerHour snap1_config \<le> 2 powi 1000" by (simp only: p)
  have h7: "snapMinutes snap1_config = 1" by code_simp
  have h8: "totalMin (startTime early_act) = Some 551" by code_simp
  have h9: "durationMin opening_act = Some 60" by code_simp
  have h10: "(9::int) * 60 \<le> 551" "(551::int) \<le> 22 * 60 - 60" by simp_all
  from roundtrip_snap1 [OF h1 h2 h3 h4 h5 h6 h7 h8 h9 h10]
  obtain y where y: "topPx snap1_config early_act = Some y"
    and f: "formatTime (clampedStartMin snap1_config y opening_act) = startTime early_act"
    by blast
  have t: "topPx snap1_config early_act = Some (7740561859543039 / 140737488355328)"
    by code_simp
  have s: "startTime early_act = ''09:11''" by code_simp
  from y t have "y = 7740561859543039 / 140737488355328" by simp
  with f t s show ?thesis by simp
qed

text \<open>
  At the least positive double as the number of pixels per hour, the offset of the card
  that starts at 10:45 underflows: 1.75 times that number is rounded to twice that number,
  and a drop there gives 11:00.
\<close>

theorem roundtrip_snap1_counterexample:
  "0 < pixelsPerHour tiny_config \<and> snapMinutes tiny_config = 1 \<and>
   startTime rehearsal_act = ''10:45'' \<and>
   topPx tiny_config rehearsal_act = Some (2 * min_subnormal) \<and>
   formatTime (clampedStartMin tiny_config (2 * min_subnormal) rehearsal_act) = ''11:00''"
proof -
  have c: "startHour tiny_config = Some 9" "endHour tiny_config = Some 22"
    "pixelsPerHour tiny_config = min_subnormal" "snapMinutes tiny_config = 1"
    by (simp_all add: tiny_config_def snap1_config_def default_config_def)
  have s: "startTime rehearsal_act = ''10:45''" by code_simp
  have t: "totalMin (startTime rehearsal_act) = Some 645" by code_simp
  have d: "durationMin rehearsal_act = Some 45" by code_simp
  have o: "js_sub (totalMin (startTime rehearsal_act)) (js_mul (Some 9) (Some 60)) = Some 105"
    by (simp add: t js_sub_def js_mul_def)
  have f1: "fl (of_int 105 / 60) = 7 / 4" by code_simp
  have top: "topPx tiny_config rehearsal_act = Some (2 * min_subnormal)"
    by (simp only: topPx_def Let_def o c option.map f1 fl_underflow_7_4)
  have p0: "min_subnormal \<noteq> 0" using min_subnormal_pos by simp
  have "minutesFromStart tiny_config (2 * min_subnormal) = 120"
    using fl_of_int [of 2] fl_of_int [of 120] by (simp add: minutesFromStart_def c p0)
  then have "snappedMinutes tiny_config (2 * min_subnormal) = 120"
    using fl_of_int [of 120] Math_round_of_int [of 120] by (simp add: snappedMinutes_def c)
  then have "clampedStartMin tiny_config (2 * min_subnormal) rehearsal_act = Some 660"
    by (simp add: clampedStartMin_Some [OF c(1,2) d])
  moreover have "formatTime (Some 660) = ''11:00''" by code_simp
  ultimately have "formatTime (clampedStartMin tiny_config (2 * min_subnormal) rehearsal_act) = ''11:00''"
    by simp
  with top s c(3,4) min_subnormal_pos show ?thesis by simp
qed




text \<open>
  C3 (bounds of the clamp). With window hours and a duration that are numbers:
  a snapped new start below \<open>startHour * 60\<close> resolves to \<open>startHour * 60\<close>; a snapped
  new start above \<open>endHour * 60 - duration\<close> resolves to the greater of
  \<open>startHour * 60\<close> and \<open>endHour * 60 - duration\<close>, which is \<open>endHour * 60 - duration\<close>
  when the act fits in the window and \<open>startHour * 60\<close> when it does not.
\<close>

theorem clamp_bounds:
  assumes "startHour cfg = Some sh" and "endHour cfg = Some eh" and "durationMin a = Some d"
    and "pixelsPerHour cfg \<noteq> 0" and "snapMinutes cfg \<noteq> 0"
    and "newStartTotalMin cfg y = Some ns"
  shows "(ns < sh * 60 \<longrightarrow> clampedStartMin cfg y a = Some (sh * 60)) \<and>
         (eh * 60 - d < ns \<longrightarrow> clampedStartMin cfg y a = Some (max (sh * 60) (eh * 60 - d))) \<and>
         (eh * 60 - d < ns \<and> sh * 60 \<le> eh * 60 - d \<longrightarrow> clampedStartMin cfg y a = Some (eh * 60 - d)) \<and>
         (eh * 60 - d < ns \<and> eh * 60 - d < sh * 60 \<longrightarrow> clampedStartMin cfg y a = Some (sh * 60))"
proof -
  from assms(1,6) have "ns = sh * 60 + snappedMinutes cfg y"
    by (simp add: newStartTotalMin_def js_add_def js_mul_def)
  then show ?thesis
    by (simp add: clampedStartMin_Some [OF assms(1-3)])
qed

text \<open>
  The act of one hour dropped 100 pixels above the top of the column starts at minute 540,
  and dropped 5000 pixels below it starts at minute 1260.
\<close>

theorem clamp_bounds_witness:
  "newStartTotalMin default_config (- 100) = Some 520 \<and>
   clampedStartMin default_config (- 100) opening_act = Some 540 \<and>
   newStartTotalMin default_config 5000 = Some 1540 \<and>
   clampedStartMin default_config 5000 opening_act = Some 1260"
proof -
  have h1: "startHour default_config = Some 9" by code_simp
  have h2: "endHour default_config = Some 22" by code_simp
  have h3: "durationMin opening_act = Some 60" by code_simp
  have h4: "pixelsPerHour default_config \<noteq> 0" by code_simp
  have h5: "snapMinutes default_config \<noteq> 0" by code_simp
  have lo: "newStartTotalMin default_config (- 100) = Some 520" by code_simp
  have hi: "newStartTotalMin default_config 5000 = Some 1540" by code_simp
  from clamp_bounds [OF h1 h2 h3 h4 h5 lo]
  have a: "clampedStartMin default_config (- 100) opening_act = Some 540" by simp
  from clamp_bounds [OF h1 h2 h3 h4 h5 hi]
  have b: "clampedStartMin default_config 5000 opening_act = Some 1260" by simp
  from lo a hi b show ?thesis by simp
qed

text \<open>
  The act of fifteen hours in the window of thirteen: its snapped new start, 1140, is above
  \<open>22 * 60 - 900 = 420\<close>, and the drop resolves to 540, the start of the window.
\<close>

theorem clamp_bounds_counterexample:
  "newStartTotalMin default_config 3000 = Some 1140 \<and>
   js_sub (globalEndMin default_config) (durationMin long_act) = Some 420 \<and>
   clampedStartMin default_config 3000 long_act = Some 540"
  by code_simp

text \<open>
  C4 (duration across a drop). When \<open>handleDrop\<close> finds the dragged act, the
  duration of the act is a number that is not negative, the clamped start is not negative
  and the clamped start plus the duration is below \<open>24 * 60\<close>, then the duration read
  from the new start and end times of the act is the duration read from the old ones.
\<close>

theorem drop_preserves_duration:
  assumes "actId (dragState ap) = Some aid" and "aid \<noteq> []"
    and "findIndex (\<lambda>a. act_id a = aid) (acts (state ap)) = Some i"
    and "a = acts (state ap) ! i"
    and "durationMin a = Some d" and "0 \<le> d"
    and "pixelsPerHour (CONFIG ap) \<noteq> 0" and "snapMinutes (CONFIG ap) \<noteq> 0"
    and "clampedStartMin (CONFIG ap) (cy - rtop - offsetY (dragState ap)) a = Some cs"
    and "0 \<le> cs" and "cs + d < 1440"
  shows "durationMin (acts (state (handleDrop ap cy rtop sid)) ! i) = durationMin a"
proof -
  let ?y = "cy - rtop - offsetY (dragState ap)"
  from findIndex_Some [OF assms(3)] have i: "i < length (acts (state ap))" by simp
  have ce: "clampedEndMin (CONFIG ap) ?y a = Some (cs + d)"
    using assms(5,9) by (simp add: clampedEndMin_def js_add_def)
  have s: "totalMin (formatTime (Some cs)) = Some cs"
    using assms(6,10,11) by (intro totalMin_formatTime) simp_all
  have e: "totalMin (formatTime (Some (cs + d))) = Some (cs + d)"
    using assms(6,10,11) by (intro totalMin_formatTime) simp_all
  have "acts (state (handleDrop ap cy rtop sid)) ! i =
          a\<lparr>stageId := sid, startTime := formatTime (Some cs), endTime := formatTime (Some (cs + d))\<rparr>"
    using i assms(4,9) ce by (simp add: handleDrop_found(1) [OF assms(1-3)])
  then show ?thesis
    using assms(5) by (simp add: durationMin_def s e js_sub_def)
qed

text \<open>The act of one hour, dropped on the second stage, goes from 10:25 to 11:25.\<close>

theorem drop_preserves_duration_witness:
  "durationMin (acts (state dragging_app) ! 0) = Some 60 \<and>
   startTime (acts (state (handleDrop dragging_app 447 0 ''stage-2'')) ! 0) = ''10:25'' \<and>
   endTime (acts (state (handleDrop dragging_app 447 0 ''stage-2'')) ! 0) = ''11:25'' \<and>
   durationMin (acts (state (handleDrop dragging_app 447 0 ''stage-2'')) ! 0) = Some 60"
proof -
  have h1: "actId (dragState dragging_app) = Some ''act-1''" by code_simp
  have h2: "''act-1'' \<noteq> []" by simp
  have h3: "findIndex (\<lambda>a. act_id a = ''act-1'') (acts (state dragging_app)) = Some 0" by code_simp
  have h4: "opening_act = acts (state dragging_app) ! 0" by code_simp
  have h5: "durationMin opening_act = Some 60" by code_simp
  have h6: "(0::int) \<le> 60" by simp
  have h7: "pixelsPerHour (CONFIG dragging_app) \<noteq> 0" by code_simp
  have h8: "snapMinutes (CONFIG dragging_app) \<noteq> 0" by code_simp
  have h9: "clampedStartMin (CONFIG dragging_app) (447 - 0 - offsetY (dragState dragging_app)) opening_act = Some 625"
    by code_simp
  have h10: "(0::int) \<le> 625" "(625::int) + 60 < 1440" by simp_all
  from drop_preserves_duration [OF h1 h2 h3 h4 h5 h6 h7 h8 h9 h10]
  have "durationMin (acts (state (handleDrop dragging_app 447 0 ''stage-2'')) ! 0) = Some 60"
    using h5 by simp
  moreover have "startTime (acts (state (handleDrop dragging_app 447 0 ''stage-2'')) ! 0) = ''10:25''"
    by code_simp
  moreover have "endTime (acts (state (handleDrop dragging_app 447 0 ''stage-2'')) ! 0) = ''11:25''"
    by code_simp
  ultimately show ?thesis using h4 h5 by simp
qed

text \<open>
  The act from 08:00 to 23:00 is moved to the start of the window; its end, minute 1440,
  is printed as 00:00, and the duration read from the new times is -540 instead of 900.
\<close>

theorem drop_preserves_duration_counterexample:
  "valid_time (startTime long_act) \<and> valid_time (endTime long_act) \<and>
   acts (state long_app) = [long_act] \<and>
   durationMin long_act = Some 900 \<and>
   startTime (acts (state (handleDrop long_app 3000 0 ''stage-1'')) ! 0) = ''09:00'' \<and>
   endTime (acts (state (handleDrop long_app 3000 0 ''stage-1'')) ! 0) = ''00:00'' \<and>
   durationMin (acts (state (handleDrop long_app 3000 0 ''stage-1'')) ! 0) = Some (- 540)"
  by code_simp

text \<open>
  C5 (rounding). Let \<open>q\<close> be the quotient that \<open>handleDrop\<close> hands to \<open>Math.round\<close>: the
  minutes from the start divided by the snap grid, as a double. With a pixel density and a
  snap grid other than zero, and minutes and grid up to \<open>2 ^ 51\<close>, the snapped minutes are
  \<open>snapMinutes\<close> times the integer nearest to \<open>q\<close>; when \<open>q\<close> is exactly halfway between
  two integers the greater one is taken; for \<open>q\<close> that is not negative this is rounding
  half away from zero.
\<close>

theorem rounding_mode:
  assumes "pixelsPerHour cfg \<noteq> 0" and "snapMinutes cfg \<noteq> 0"
    and "\<bar>minutesFromStart cfg y\<bar> \<le> 2 ^ 51" and "\<bar>snapMinutes cfg\<bar> \<le> 2 ^ 51"
    and "q = fl (minutesFromStart cfg y / of_int (snapMinutes cfg))"
  shows "snappedMinutes cfg y = Math_round q * snapMinutes cfg \<and>
         (\<forall>j. \<bar>q - of_int (Math_round q)\<bar> \<le> \<bar>q - of_int j\<bar>) \<and>
         (\<forall>k. q = of_int k + 1 / 2 \<longrightarrow> Math_round q = k + 1) \<and>
         (0 \<le> q \<longrightarrow> Math_round q = round_half_away_spec q)"
  using assms(5)
  by (simp add: snappedMinutes_def Math_round_nearest Math_round_half)
     (simp add: Math_round_def round_half_away_spec_def)

text \<open>
  An offset of 12.5 pixels is 2.5 minutes, half a grid step: it snaps to 5 minutes. An
  offset of 612.5 pixels is 122.49999999999999 minutes as a double, below the half between
  120 and 125: it snaps to 120.
\<close>

theorem rounding_mode_witness:
  "snappedMinutes default_config (25 / 2) = 5 \<and> Math_round (1 / 2) = 1 \<and>
   round_half_away_spec (1 / 2) = 1 \<and> snappedMinutes default_config (1225 / 2) = 120"
proof -
  have h1: "pixelsPerHour default_config \<noteq> 0" by code_simp
  have h2: "snapMinutes default_config \<noteq> 0" by code_simp
  have h3: "\<bar>minutesFromStart default_config (25 / 2)\<bar> \<le> 2 ^ 51" by code_simp
  have h4: "\<bar>snapMinutes default_config\<bar> \<le> 2 ^ 51" by code_simp
  have h5: "(1 / 2 :: rat) =
      fl (minutesFromStart default_config (25 / 2) / of_int (snapMinutes default_config))"
    by code_simp
  have s: "snapMinutes default_config = 5" by code_simp
  from rounding_mode [OF h1 h2 h3 h4 h5]
  have a: "snappedMinutes default_config (25 / 2) = Math_round (1 / 2) * snapMinutes default_config"
    and b: "\<forall>k. (1 / 2 :: rat) = of_int k + 1 / 2 \<longrightarrow> Math_round (1 / 2) = k + 1"
    and c: "(0::rat) \<le> 1 / 2 \<longrightarrow> Math_round (1 / 2) = round_half_away_spec (1 / 2)"
    by simp_all
  from b have r: "Math_round (1 / 2) = 1" by (simp add: allE [of _ 0])
  have e: "snappedMinutes default_config (1225 / 2) = 120" by code_simp
  from r a c s e show ?thesis by simp
qed

text \<open>
  An offset of -12.5 pixels is minus half a grid step: it snaps to 0, while rounding half
  away from zero gives -5.
\<close>

theorem rounding_mode_counterexample:
  "fl (minutesFromStart default_config (- 25 / 2) / of_int (snapMinutes default_config)) = - 1 / 2 \<and>
   snappedMinutes default_config (- 25 / 2) = 0 \<and>
   round_half_away_spec (- 1 / 2) * snapMinutes default_config = - 5"
  by code_simp

text \<open>
  C6 (hour modulo 24). For a total of minutes that is not negative and below \<open>2 ^ 53\<close>,
  \<open>formatTime\<close> returns the hour \<open>\<lfloor>t / 60\<rfloor> mod 24\<close> and the minute \<open>t mod 60\<close>, each
  written with two digits, with a colon between them; reading the string back gives these
  two numbers.
\<close>

theorem formatTime_wrap:
  assumes "0 \<le> t" and "t < 2 ^ 53"
  shows "formatTime (Some t) =
           two_digits (nat ((t div 60) mod 24)) @ '':'' @ two_digits (nat (t mod 60)) \<and>
         splitHM (formatTime (Some t)) = (Some ((t div 60) mod 24), Some (t mod 60))"
proof -
  have f: "Math_floor (fl (of_int t / 60)) = t div 60" by (rule Math_floor_div [OF assms])
  have "0 \<le> t div 60" using assms(1) by (simp add: pos_imp_zdiv_nonneg_iff)
  then have "wrap_hour (t div 60) = (t div 60) mod 24"
    by (simp add: wrap_hour_def js_rem_nonneg)
  moreover have "js_rem t 60 = t mod 60" using assms(1) by (simp add: js_rem_nonneg)
  ultimately have "splitHM (formatTime (Some t)) = (Some ((t div 60) mod 24), Some (t mod 60))"
    by (simp add: splitHM_formatTime f)
  with formatTime_nonneg [OF assms] show ?thesis by (rule conjI)
qed

text \<open>Minute 1505 is 25 hours and 5 minutes: it is printed as 01:05.\<close>

theorem formatTime_wrap_witness:
  "formatTime (Some 1505) = ''01:05'' \<and> splitHM (formatTime (Some 1505)) = (Some 1, Some 5)"
proof -
  have h: "(0::int) \<le> 1505" "(1505::int) < 2 ^ 53" by simp_all
  have d: "two_digits (nat ((1505 div 60) mod 24)) @ '':'' @ two_digits (nat (1505 mod 60)) = ''01:05''"
    by code_simp
  from formatTime_wrap [OF h]
  have a: "formatTime (Some 1505) =
             two_digits (nat ((1505 div 60) mod 24)) @ '':'' @ two_digits (nat (1505 mod 60))"
    and b: "splitHM (formatTime (Some 1505)) = (Some ((1505 div 60) mod 24), Some (1505 mod 60))"
    by blast+
  from a d have "formatTime (Some 1505) = ''01:05''" by (rule trans)
  moreover from b have "splitHM (formatTime (Some 1505)) = (Some 1, Some 5)" by simp
  ultimately show ?thesis by (rule conjI)
qed

text \<open>
  Ten to the power 19 minutes: the quotient by 60 is rounded to a double that is a multiple
  of 32, so that the hour printed is 00, while \<open>\<lfloor>t / 60\<rfloor> mod 24\<close> is 10.
\<close>

theorem formatTime_wrap_counterexample:
  "formatTime (Some 10000000000000000000) = ''00:40'' \<and>
   two_digits (nat ((10000000000000000000 div 60) mod 24)) = ''10''"
  by code_simp

text \<open>
  C7 (anchor values). In the window from 9 to 22 at 300 pixels per hour, a card that
  starts at 09:00 is placed at offset 0 and a card that starts at 10:00 at offset 300.
\<close>

theorem anchor_offsets:
  "topPx default_config (a\<lparr>startTime := ''09:00''\<rparr>) = Some 0 \<and>
   topPx default_config (a\<lparr>startTime := ''10:00''\<rparr>) = Some 300"
  by (simp add: topPx_def default_config_def js_sub_def js_mul_def
      totalMin_0900 totalMin_1000 fl_0 fl_1 fl_300)

text \<open>
  C8 (window invariant of the settings form). In the initial state the start hour is below
  the end hour. Submitting the form with an empty start field and the end field 22 passes
  the guard, since \<open>parseInt\<close> returns \<open>NaN\<close> and \<open>NaN >= 22\<close> is false: afterwards the
  start hour of \<open>CONFIG\<close> is \<open>NaN\<close> and is not below the end hour, and the stored state
  holds \<open>null\<close> in its place.
\<close>

theorem settings_empty_start:
  "js_lt (startHour (CONFIG default_app)) (endHour (CONFIG default_app)) \<and>
   startHour (CONFIG (handleSettingsSubmit default_app [] ''22'')) = None \<and>
   endHour (CONFIG (handleSettingsSubmit default_app [] ''22'')) = Some 22 \<and>
   \<not> js_lt (startHour (CONFIG (handleSettingsSubmit default_app [] ''22'')))
            (endHour (CONFIG (handleSettingsSubmit default_app [] ''22''))) \<and>
   map_option (\<lambda>st. saved_startHour (config st))
     (localStorage (handleSettingsSubmit default_app [] ''22'')) = Some None"
  by code_simp

text \<open>
  C9 (frame of a drop). When \<open>handleDrop\<close> finds the dragged act at index \<open>i\<close>, the array
  of acts keeps its length and the order of its ids, every act at another index is
  unchanged, the act at \<open>i\<close> differs from the old one in \<open>stageId\<close>, \<open>startTime\<close> and
  \<open>endTime\<close> at most (its id, name, colour and category are the old ones), and the stages
  and the members are unchanged.
\<close>

theorem drop_frame:
  assumes "actId (dragState ap) = Some aid" and "aid \<noteq> []"
    and "findIndex (\<lambda>a. act_id a = aid) (acts (state ap)) = Some i"
    and "ap' = handleDrop ap cy rtop sid"
  shows "i < length (acts (state ap)) \<and> act_id (acts (state ap) ! i) = aid \<and>
         length (acts (state ap')) = length (acts (state ap)) \<and>
         (\<forall>j < length (acts (state ap)). j \<noteq> i \<longrightarrow> acts (state ap') ! j = acts (state ap) ! j) \<and>
         (\<exists>s t e. acts (state ap') ! i = (acts (state ap) ! i)\<lparr>stageId := s, startTime := t, endTime := e\<rparr>) \<and>
         act_id (acts (state ap') ! i) = act_id (acts (state ap) ! i) \<and>
         act_name (acts (state ap') ! i) = act_name (acts (state ap) ! i) \<and>
         color (acts (state ap') ! i) = color (acts (state ap) ! i) \<and>
         category (acts (state ap') ! i) = category (acts (state ap) ! i) \<and>
         map act_id (acts (state ap')) = map act_id (acts (state ap)) \<and>
         stages (state ap') = stages (state ap) \<and> members (state ap') = members (state ap)"
proof -
  from findIndex_Some [OF assms(3)]
  have i: "i < length (acts (state ap))" and aid: "act_id (acts (state ap) ! i) = aid" by simp_all
  note h = handleDrop_found [OF assms(1-3), of cy rtop sid]
  have ids: "map act_id (acts (state ap')) = map act_id (acts (state ap))"
    using i by (simp add: assms(4) h(1) map_update list_update_same_conv)
  show ?thesis
    using i aid ids by (simp add: assms(4) h) blast
qed

text \<open>
  In the state with four acts, the drop of the second act on the second stage changes the
  stage and the times of that act; the first act, the stages and the members are as before.
\<close>

theorem drop_frame_witness:
  "acts (state (handleDrop dragging_export_app 447 0 ''stage-2'')) =
     (acts (state export_app))
       [1 := (acts (state export_app) ! 1)
               \<lparr>stageId := ''stage-2'', startTime := ''10:25'', endTime := ''11:25''\<rparr>] \<and>
   acts (state (handleDrop dragging_export_app 447 0 ''stage-2'')) ! 0 = acts (state export_app) ! 0 \<and>
   stages (state (handleDrop dragging_export_app 447 0 ''stage-2'')) = stages (state export_app) \<and>
   members (state (handleDrop dragging_export_app 447 0 ''stage-2'')) = members (state export_app)"
proof -
  have h1: "actId (dragState dragging_export_app) = Some ''act-3''" by code_simp
  have h2: "''act-3'' \<noteq> []" by simp
  have h3: "findIndex (\<lambda>a. act_id a = ''act-3'') (acts (state dragging_export_app)) = Some 1"
    by code_simp
  have e: "acts (state dragging_export_app) = acts (state export_app)"
    "stages (state dragging_export_app) = stages (state export_app)"
    "members (state dragging_export_app) = members (state export_app)"
    by (simp_all add: dragging_export_app_def handleDragStart_def)
  have l: "0 < length (acts (state export_app))" by code_simp
  from drop_frame [OF h1 h2 h3 refl, of 447 0 "''stage-2''"]
  have f: "\<forall>j < length (acts (state export_app)). j \<noteq> 1 \<longrightarrow>
             acts (state (handleDrop dragging_export_app 447 0 ''stage-2'')) ! j =
             acts (state export_app) ! j"
    and "stages (state (handleDrop dragging_export_app 447 0 ''stage-2'')) = stages (state export_app)"
    and "members (state (handleDrop dragging_export_app 447 0 ''stage-2'')) = members (state export_app)"
    by (simp_all add: e)
  moreover from f l
  have "acts (state (handleDrop dragging_export_app 447 0 ''stage-2'')) ! 0 = acts (state export_app) ! 0"
    by (simp add: allE [of _ 0])
  moreover have "acts (state (handleDrop dragging_export_app 447 0 ''stage-2'')) =
     (acts (state export_app))
       [1 := (acts (state export_app) ! 1)
               \<lparr>stageId := ''stage-2'', startTime := ''10:25'', endTime := ''11:25''\<rparr>]"
    by code_simp
  ultimately show ?thesis by simp
qed

text \<open>
  C10 (membership for the individual export). For the member selected,
  \<open>handleIndividualExportSubmit\<close> hands over exactly the acts, in their order, whose
  category is present, not empty and has, among its comma-separated parts trimmed of white
  space, a part equal to one of the member's team names.
\<close>

theorem individual_export_selection:
  assumes "find (\<lambda>m. member_id m = memId) (members (state ap)) = Some m"
  shows "handleIndividualExportSubmit ap memId =
           Some (filter (team_match_spec m) (acts (state ap)), member_name m)"
  using assms by (simp add: handleIndividualExportSubmit_def memberAct_spec [abs_def])

text \<open>
  For the member of the teams Snap and Exits, the act of the team Exits is selected; the
  act of the team Snappy, of which Snap is a prefix, is not, nor are the acts with an empty
  category or none.
\<close>

theorem individual_export_selection_witness:
  "handleIndividualExportSubmit export_app ''mem-1'' =
     Some ([opening_act\<lparr>act_id := ''act-3'', category := Some '' Exits ,Ultra L''\<rparr>], ''Aki'')"
proof -
  have h: "find (\<lambda>m. member_id m = ''mem-1'') (members (state export_app)) =
             Some \<lparr>member_id = ''mem-1'', member_name = ''Aki'', teams = [''Snap'', ''Exits'']\<rparr>"
    by code_simp
  have f: "filter (team_match_spec \<lparr>member_id = ''mem-1'', member_name = ''Aki'', teams = [''Snap'', ''Exits'']\<rparr>)
             (acts (state export_app)) =
           [opening_act\<lparr>act_id := ''act-3'', category := Some '' Exits ,Ultra L''\<rparr>]"
    by code_simp
  from individual_export_selection [OF h] f show ?thesis by simp
qed

end
